theory Spec2Isabelle
  imports Main "HOL-Library.Sublist" "HOL-Library.Multiset"
begin

section \<open>Python strings\<close>

text \<open>
  A Python \<open>str\<close> is modelled as a \<open>string\<close>: a list of characters with code points
  below 256. Case mapping acts on the ASCII letters and leaves every other character
  alone; the white space of \<open>str.strip\<close> is the white space Python knows below 256.
\<close>

definition startswith :: "string \<Rightarrow> string \<Rightarrow> bool" where
  \<comment> \<open>\<open>s.startswith(p)\<close>\<close>
  "startswith s p = prefix p s"

definition endswith :: "string \<Rightarrow> string \<Rightarrow> bool" where
  \<comment> \<open>\<open>s.endswith(p)\<close>\<close>
  "endswith s p = suffix p s"

definition str_in :: "string \<Rightarrow> string \<Rightarrow> bool" where
  \<comment> \<open>\<open>p in s\<close>\<close>
  "str_in p s = sublist p s"

definition ascii_uppercase :: string where
  "ascii_uppercase = ''ABCDEFGHIJKLMNOPQRSTUVWXYZ''"

definition ascii_lowercase :: string where
  "ascii_lowercase = ''abcdefghijklmnopqrstuvwxyz''"

definition lower_char :: "char \<Rightarrow> char" where
  "lower_char c = (case map_of (zip ascii_uppercase ascii_lowercase) c of None \<Rightarrow> c | Some l \<Rightarrow> l)"

definition upper_char :: "char \<Rightarrow> char" where
  "upper_char c = (case map_of (zip ascii_lowercase ascii_uppercase) c of None \<Rightarrow> c | Some u \<Rightarrow> u)"

definition lower :: "string \<Rightarrow> string" where
  \<comment> \<open>\<open>s.lower()\<close>\<close>
  "lower s = map lower_char s"

definition upper :: "string \<Rightarrow> string" where
  \<comment> \<open>\<open>s.upper()\<close>\<close>
  "upper s = map upper_char s"

definition isspace :: "char \<Rightarrow> bool" where
  "isspace c =
     (let n = (of_char c :: nat)
      in (9 \<le> n \<and> n \<le> 13) \<or> (28 \<le> n \<and> n \<le> 32) \<or> n = 133 \<or> n = 160)"

definition strip :: "string \<Rightarrow> string" where
  \<comment> \<open>\<open>s.strip()\<close>\<close>
  "strip s = rev (dropWhile isspace (rev (dropWhile isspace s)))"

definition digit :: "nat \<Rightarrow> char" where
  "digit n = ''0123456789'' ! n"

function str_of_nat :: "nat \<Rightarrow> string" where
  "str_of_nat n =
     (if n < 10 then [digit n] else str_of_nat (n div 10) @ [digit (n mod 10)])"
  by pat_completeness auto
termination
  by (relation "measure id") auto

declare str_of_nat.simps [simp del]

definition str_of_int :: "int \<Rightarrow> string" where
  \<comment> \<open>\<open>str(i)\<close>, also what an f-string prints for an \<open>int\<close>\<close>
  "str_of_int i = (if i < 0 then ''-'' @ str_of_nat (nat (- i)) else str_of_nat (nat i))"

definition join :: "string \<Rightarrow> string list \<Rightarrow> string" where
  \<comment> \<open>\<open>sep.join(xs)\<close>\<close>
  "join sep xs = (case xs of [] \<Rightarrow> [] | y # ys \<Rightarrow> y @ concat (map (\<lambda>z. sep @ z) ys))"

section \<open>Files written through \<open>csv.writer\<close>\<close>

datatype cell = CStr string | CInt int | CBool bool | CNone

type_synonym filesystem = "string \<rightharpoonup> cell list list"

definition write_header :: "string \<Rightarrow> string list \<Rightarrow> filesystem \<Rightarrow> filesystem" where
  \<comment> \<open>\<open>open(name, 'w')\<close> and one \<open>writerow\<close>: the file holds the header alone\<close>
  "write_header name header fs = fs(name \<mapsto> [map CStr header])"

definition rows_of :: "filesystem \<Rightarrow> string \<Rightarrow> cell list list" where
  "rows_of fs name = (case fs name of None \<Rightarrow> [] | Some rows \<Rightarrow> rows)"

definition append_row :: "string \<Rightarrow> cell list \<Rightarrow> filesystem \<Rightarrow> filesystem" where
  \<comment> \<open>\<open>open(name, 'a')\<close> and one \<open>writerow\<close>; mode \<open>'a'\<close> creates a missing file\<close>
  "append_row name row fs = fs(name \<mapsto> rows_of fs name @ [row])"

section \<open>Requests and \<open>asyncio.gather\<close>\<close>

datatype failure = TimeoutError | OtherError string

datatype http = Fails failure | Response int string

text \<open>
  A unit of work is a function from the shared state (the files) to its result and the
  new state. Each unit of the three programs touches the files in one step without an
  \<open>await\<close> inside, so a run of \<open>gather\<close> is a run of the units in some order: the order in
  which they complete. The scheduler's choice is the parameter \<open>prio\<close>: the units run by
  increasing priority (every order is the order of some \<open>prio\<close>), and the results come
  back in the order of the units, as \<open>gather\<close> returns them.
\<close>

fun run_tasks :: "('s \<Rightarrow> 'r \<times> 's) list \<Rightarrow> nat list \<Rightarrow> 's \<Rightarrow> (nat \<times> 'r) list \<times> 's" where
  "run_tasks tasks [] s = ([], s)"
| "run_tasks tasks (i # order) s =
     (let (r, s') = (tasks ! i) s;
          (finished, s'') = run_tasks tasks order s'
      in ((i, r) # finished, s''))"

definition gather :: "(nat \<Rightarrow> nat) \<Rightarrow> ('s \<Rightarrow> 'r \<times> 's) list \<Rightarrow> 's \<Rightarrow> 'r list \<times> 's" where
  "gather prio tasks s =
     (let order = sort_key prio [0..<length tasks];
          (finished, s') = run_tasks tasks order s
      in (map (\<lambda>i. the (map_of finished i)) [0..<length tasks], s'))"

section \<open>The discovery pipeline (main.py)\<close>

record discovery_world =
  http_get :: "string \<Rightarrow> http"
  \<comment> \<open>\<open>session.get(url)\<close>: an exception, or the status and the text of the response\<close>
  candidates :: "string \<Rightarrow> string list"
  \<comment> \<open>the \<open>.text\<close> of every element \<open>find_all\<close> gives for the class
     \<open>col-lg-4 col-md-4 col-sm-12\<close> in the markup\<close>
  now :: "int \<Rightarrow> string"
  \<comment> \<open>the formatted \<open>datetime.now()\<close> when the rows of a page are saved\<close>

definition py_range :: "int \<Rightarrow> int \<Rightarrow> int list" where
  \<comment> \<open>\<open>range(a, b)\<close>\<close>
  "py_range a b = [a..b - 1]"

definition page_url :: "string \<Rightarrow> int \<Rightarrow> string" where
  "page_url zone page_num =
     ''https://onshopify.com/domain-zone/'' @ zone @ ''/'' @ str_of_int page_num"

definition save_to_csv ::
  "discovery_world \<Rightarrow> string \<Rightarrow> string list \<Rightarrow> int \<Rightarrow> filesystem \<Rightarrow> filesystem" where
  "save_to_csv w output_filename domains page_num fs =
     fold (\<lambda>domain. append_row output_filename [CInt page_num, CStr domain, CStr (now w page_num)])
       domains fs"

definition scrape ::
  "discovery_world \<Rightarrow> string \<Rightarrow> string \<Rightarrow> int \<Rightarrow> filesystem
     \<Rightarrow> (failure + string list option) \<times> filesystem" where
  \<comment> \<open>\<open>Inl\<close>: the exception \<open>session.get\<close> raised; \<open>Inr None\<close>: the \<open>None\<close> the function
     returns on a status other than 200\<close>
  "scrape w zone output_filename page_num fs =
     (case http_get w (page_url zone page_num) of
        Fails e \<Rightarrow> (Inl e, fs)
      | Response status text \<Rightarrow>
          if status = 200 then
            (let page_domains =
                   map strip (filter (\<lambda>link. endswith (strip link) (''.'' @ zone))
                     (candidates w text))
             in (Inr (Some page_domains),
                 if page_domains \<noteq> [] then save_to_csv w output_filename page_domains page_num fs
                 else fs))
          else (Inr None, fs))"

definition fetch_pages :: "int \<Rightarrow> int list" where
  \<comment> \<open>the page numbers \<open>fetch\<close> creates a task for\<close>
  "fetch_pages last_page = py_range 1 last_page"

definition fetch ::
  "discovery_world \<Rightarrow> (nat \<Rightarrow> nat) \<Rightarrow> string \<Rightarrow> string \<Rightarrow> int \<Rightarrow> filesystem
     \<Rightarrow> string list \<times> filesystem" where
  "fetch w prio zone output_filename last_page fs =
     (let tasks = map (scrape w zone output_filename) (fetch_pages last_page);
          (results, fs') = gather prio tasks fs;
          all_domains =
            concat (map (\<lambda>domains. case domains of Inr (Some ds) \<Rightarrow> ds | _ \<Rightarrow> []) results)
      in (all_domains, fs'))"

section \<open>The widget pipeline (main2.py)\<close>

datatype exn = FileNotFoundError | KeyError string

datatype outcome = SystemExit int string | Uncaught exn | Finished
  \<comment> \<open>\<open>SystemExit n msg\<close>: \<open>sys.exit(n)\<close>, after \<open>msg\<close> was printed\<close>

record probe_world =
  session_get :: "string \<Rightarrow> http"
  \<comment> \<open>\<open>session.get(url, timeout=...)\<close> and \<open>response.text()\<close>: \<open>asyncio.TimeoutError\<close>,
     another exception (with its \<open>str\<close>), or the status and the text\<close>
  current_time :: "string \<Rightarrow> string"
  \<comment> \<open>the formatted \<open>datetime.now()\<close> when the row of a URL is saved\<close>
  csv_reader :: "string \<Rightarrow> (string \<rightharpoonup> string) list option"
  \<comment> \<open>the rows \<open>csv.DictReader\<close> gives for a file; \<open>None\<close> when it cannot be opened\<close>
  TIMESTAMP :: string
  \<comment> \<open>the formatted \<open>datetime.now()\<close> at module load\<close>
  results_timestamp :: string
  \<comment> \<open>the formatted \<open>datetime.now()\<close> when \<open>save_results\<close> runs\<close>

record result =
  domain :: string
  valid :: bool
  status :: "int option"
  verifypass :: bool
  error :: "string option"

definition ensure_https :: "string \<Rightarrow> string" where
  \<comment> \<open>"Ensure domain has https://": the first two lines of both \<open>check_domain\<close>\<close>
  "ensure_https d = (if \<not> startswith d ''http'' then ''https://'' @ d else d)"

definition VERIFYPASS_FILE :: "probe_world \<Rightarrow> string" where
  "VERIFYPASS_FILE w = ''verifypass_domains_'' @ TIMESTAMP w @ ''.csv''"

definition save_verifypass_domain ::
  "probe_world \<Rightarrow> string \<Rightarrow> int \<Rightarrow> filesystem \<Rightarrow> filesystem" where
  "save_verifypass_domain w d st fs =
     append_row (VERIFYPASS_FILE w) [CStr d, CStr (current_time w d), CInt st] fs"

definition verifypass_indicators :: "string list" where
  "verifypass_indicators =
     [''verifypass.com'', ''verifypass.js'', ''verifypass-shopify'', ''data-verifypass'']"

definition has_verifypass :: "string \<Rightarrow> bool" where
  "has_verifypass html_content =
     list_ex (\<lambda>indicator. str_in indicator (lower html_content)) verifypass_indicators"

definition check_domain_main2 ::
  "probe_world \<Rightarrow> string \<Rightarrow> filesystem \<Rightarrow> result \<times> filesystem" where
  \<comment> \<open>the whole body stands in \<open>try\<close>, and both handlers return a record\<close>
  "check_domain_main2 w d0 fs =
     (let d = ensure_https d0 in
      case session_get w d of
        Fails TimeoutError \<Rightarrow>
          (\<lparr>domain = d, valid = False, status = None, verifypass = False,
            error = Some ''Timeout''\<rparr>, fs)
      | Fails (OtherError e) \<Rightarrow>
          (\<lparr>domain = d, valid = False, status = None, verifypass = False, error = Some e\<rparr>, fs)
      | Response st html_content \<Rightarrow>
          if st \<noteq> 200 then
            (\<lparr>domain = d, valid = False, status = Some st, verifypass = False,
              error = Some (''Invalid status code: '' @ str_of_int st)\<rparr>, fs)
          else
            (\<lparr>domain = d, valid = True, status = Some st,
              verifypass = has_verifypass html_content, error = None\<rparr>,
             if has_verifypass html_content then save_verifypass_domain w d st fs else fs))"

definition process_domains_main2 ::
  "probe_world \<Rightarrow> (nat \<Rightarrow> nat) \<Rightarrow> string list \<Rightarrow> filesystem \<Rightarrow> result list \<times> filesystem" where
  "process_domains_main2 w prio domains fs = gather prio (map (check_domain_main2 w) domains) fs"

fun load_rows :: "(string \<rightharpoonup> string) list \<Rightarrow> exn + string list" where
  \<comment> \<open>the loop \<open>domains.append(row['Domain'])\<close>\<close>
  "load_rows [] = Inr []"
| "load_rows (row # rows) =
     (case row ''Domain'' of
        None \<Rightarrow> Inl (KeyError ''Domain'')
      | Some d \<Rightarrow> (case load_rows rows of Inl e \<Rightarrow> Inl e | Inr ds \<Rightarrow> Inr (d # ds)))"

definition load_domains_from_csv :: "'a probe_world_scheme \<Rightarrow> string \<Rightarrow> exn + string list" where
  "load_domains_from_csv w filename =
     (case csv_reader w filename of None \<Rightarrow> Inl FileNotFoundError | Some rows \<Rightarrow> load_rows rows)"

definition result_row :: "result \<Rightarrow> cell list" where
  "result_row r =
     [CStr (domain r), CBool (valid r),
      (case status r of None \<Rightarrow> CNone | Some st \<Rightarrow> CInt st),
      CBool (verifypass r),
      (case error r of None \<Rightarrow> CNone | Some e \<Rightarrow> CStr e)]"

definition save_results :: "probe_world \<Rightarrow> result list \<Rightarrow> string \<Rightarrow> filesystem \<Rightarrow> filesystem" where
  \<comment> \<open>the parameter \<open>output_filename\<close> is assigned before it is read\<close>
  "save_results w results output_filename fs =
     (let timestamp = results_timestamp w;
          output_filename = ''domain_check_results_'' @ timestamp @ ''.csv''
      in fs(output_filename \<mapsto>
           map CStr [''Domain'', ''Valid'', ''Status'', ''VerifyPass'', ''Error'']
             # map result_row results))"

definition batch_size :: nat where
  "batch_size = 50"

function range_step :: "nat \<Rightarrow> nat \<Rightarrow> nat \<Rightarrow> nat list" where
  \<comment> \<open>\<open>range(i, stop, step)\<close> for a positive step\<close>
  "range_step i stop step =
     (if 0 < step \<and> i < stop then i # range_step (i + step) stop step else [])"
  by pat_completeness auto
termination
  by (relation "measure (\<lambda>(i, stop, step). stop - i)") auto

declare range_step.simps [simp del]

definition main_batches :: "'a list \<Rightarrow> 'a list list" where
  \<comment> \<open>\<open>domains[i:i + batch_size]\<close> for \<open>i in range(0, total_domains, batch_size)\<close>\<close>
  "main_batches domains =
     map (\<lambda>i. take batch_size (drop i domains)) (range_step 0 (length domains) batch_size)"

fun run_batches_main2 ::
  "probe_world \<Rightarrow> (nat \<Rightarrow> nat \<Rightarrow> nat) \<Rightarrow> nat \<Rightarrow> string list list \<Rightarrow> result list \<Rightarrow> filesystem
     \<Rightarrow> result list \<times> filesystem" where
  \<comment> \<open>the body of the \<open>for\<close> loop, batch after batch; \<open>sched k\<close> is the scheduler's choice
     in batch \<open>k\<close>\<close>
  "run_batches_main2 w sched k [] results fs = (results, fs)"
| "run_batches_main2 w sched k (batch # rest) results fs =
     (let (batch_results, fs') = process_domains_main2 w (sched k) batch fs
      in run_batches_main2 w sched (Suc k) rest (results @ batch_results) fs')"

definition usage :: string where
  "usage = ''Please provide the CSV file path as an argument''"

definition main_main2 ::
  "probe_world \<Rightarrow> (nat \<Rightarrow> nat \<Rightarrow> nat) \<Rightarrow> string list \<Rightarrow> filesystem \<Rightarrow> outcome \<times> filesystem" where
  "main_main2 w sched argv fs =
     (if length argv < 2 then (SystemExit 1 usage, fs)
      else
        (let csv_file = argv ! 1 in
         case load_domains_from_csv w csv_file of
           Inl e \<Rightarrow> (Uncaught e, fs)
         | Inr domains \<Rightarrow>
             (let (results, fs') = run_batches_main2 w sched 0 (main_batches domains) [] fs
              in (Finished, save_results w results ''domain_check_results.csv'' fs'))))"

definition module_main2 ::
  "probe_world \<Rightarrow> (nat \<Rightarrow> nat \<Rightarrow> nat) \<Rightarrow> string list \<Rightarrow> filesystem \<Rightarrow> outcome \<times> filesystem" where
  \<comment> \<open>\<open>python main2.py ...\<close>: the module-level statements, then \<open>asyncio.run(main())\<close>\<close>
  "module_main2 w sched argv fs =
     main_main2 w sched argv
       (write_header (VERIFYPASS_FILE w) [''Domain'', ''Timestamp'', ''Status''] fs)"

section \<open>The locale pipeline (script.py)\<close>

function split_from :: "string \<Rightarrow> string \<Rightarrow> string \<Rightarrow> string list" where
  "split_from sep cur [] = [cur]"
| "split_from sep cur (c # cs) =
     (if sep \<noteq> [] \<and> prefix sep (c # cs)
      then cur # split_from sep [] (drop (length sep) (c # cs))
      else split_from sep (cur @ [c]) cs)"
  by pat_completeness auto
termination
  by (relation "measure (\<lambda>(sep, cur, s). length s)") auto

definition str_split :: "string \<Rightarrow> string \<Rightarrow> string list" where
  \<comment> \<open>\<open>s.split(sep)\<close> for a separator that is not empty\<close>
  "str_split s sep = split_from sep [] s"

record meta =
  meta_property :: "string option"
  \<comment> \<open>\<open>meta.get('property')\<close>\<close>
  meta_name :: "string option"
  \<comment> \<open>\<open>meta.get('name')\<close>\<close>
  meta_content :: "string option"
  \<comment> \<open>\<open>meta.get('content')\<close>\<close>

datatype json = JString string | JOther

record locale_world = probe_world +
  re_search_locale :: "string \<Rightarrow> string option"
  \<comment> \<open>\<open>group(1)\<close> of \<open>re.search(locale_pattern, html_content)\<close>; \<open>None\<close>: no match\<close>
  find_all_meta :: "string \<Rightarrow> meta list"
  \<comment> \<open>\<open>soup.find_all('meta')\<close>\<close>
  find_all_script :: "string \<Rightarrow> string option list"
  \<comment> \<open>\<open>script.string\<close> for each of \<open>soup.find_all('script')\<close>\<close>
  re_search_shop :: "string \<Rightarrow> string option"
  \<comment> \<open>\<open>group(1)\<close> of the search for the \<open>Shopify.shop = {...}\<close> pattern in a script\<close>
  json_loads :: "string \<Rightarrow> (string \<rightharpoonup> json) option"
  \<comment> \<open>the object \<open>json.loads\<close> gives; \<open>None\<close>: \<open>JSONDecodeError\<close>\<close>
  re_search_currency :: "nat \<Rightarrow> string \<Rightarrow> bool"
  \<comment> \<open>whether \<open>re.search(currency_patterns[k], html_content)\<close> matches\<close>

record shopify_data =
  country_code :: "string option"
  shop_id :: "string option"
  indicators :: "string list"

definition INDIAN_DOMAINS_FILE :: "'a probe_world_scheme \<Rightarrow> string" where
  "INDIAN_DOMAINS_FILE w = ''indian_shopify_domains_'' @ TIMESTAMP w @ ''.csv''"

definition opt_cell :: "string option \<Rightarrow> cell" where
  "opt_cell x = (case x of None \<Rightarrow> CNone | Some t \<Rightarrow> CStr t)"

definition save_indian_domain ::
  "'a probe_world_scheme \<Rightarrow> string \<Rightarrow> nat \<Rightarrow> string \<Rightarrow> string option \<Rightarrow> string option
     \<Rightarrow> filesystem \<Rightarrow> filesystem" where
  "save_indian_domain w d confidence inds cc sid fs =
     append_row (INDIAN_DOMAINS_FILE w)
       [CStr d, CInt (int confidence), CStr inds, opt_cell cc, opt_cell sid, CStr (current_time w d)]
       fs"

definition locale_step :: "locale_world \<Rightarrow> string \<Rightarrow> shopify_data \<Rightarrow> shopify_data" where
  \<comment> \<open>check 1: \<open>Shopify.locale\<close>\<close>
  "locale_step w html_content data =
     (case re_search_locale w html_content of
        None \<Rightarrow> data
      | Some grp \<Rightarrow>
          if str_in ''IN'' (upper grp)
          then data\<lparr>country_code := Some ''IN'',
                    indicators := indicators data @ [''Shopify locale: IN'']\<rparr>
          else data)"

definition meta_step :: "meta \<Rightarrow> shopify_data \<Rightarrow> shopify_data" where
  \<comment> \<open>checks 2 and 3: the body of the loop over the meta tags\<close>
  "meta_step m data =
     (let data1 =
            (if meta_property m = Some ''og:locale'' then
               (let locale = (case meta_content m of None \<Rightarrow> [] | Some c \<Rightarrow> c)
                in if str_in ''IN'' (upper locale)
                   then data\<lparr>country_code := Some ''IN'',
                             indicators := indicators data @ [''Meta locale: IN'']\<rparr>
                   else data)
             else data)
      in if meta_name m = Some ''shopify-digital-wallet'' then
           (let content = (case meta_content m of None \<Rightarrow> [] | Some c \<Rightarrow> c)
            in if str_in ''/shop/'' content
               then data1\<lparr>shop_id := Some (hd (str_split (last (str_split content ''/shop/'')) ''/''))\<rparr>
               else data1)
         else data1)"

definition script_step :: "locale_world \<Rightarrow> string option \<Rightarrow> shopify_data \<Rightarrow> shopify_data" where
  \<comment> \<open>check 4: the body of the loop over the script tags\<close>
  "script_step w script_string data =
     (let script_text = (case script_string of None \<Rightarrow> [] | Some t \<Rightarrow> t)
      in if str_in ''Shopify.shop'' script_text then
           (case re_search_shop w script_text of
              None \<Rightarrow> data
            | Some grp \<Rightarrow>
                (case json_loads w grp of
                   None \<Rightarrow> data
                 | Some shop_data \<Rightarrow>
                     if shop_data ''country_code'' = Some (JString ''IN'')
                     then data\<lparr>country_code := Some ''IN'',
                               indicators := indicators data @ [''Shopify.shop country: IN'']\<rparr>
                     else data))
         else data)"

definition currency_step :: "locale_world \<Rightarrow> string \<Rightarrow> shopify_data \<Rightarrow> shopify_data" where
  \<comment> \<open>check 5: the first of the three patterns that matches ends the loop\<close>
  "currency_step w html_content data =
     (if list_ex (\<lambda>k. re_search_currency w k html_content) [0, 1, 2]
      then data\<lparr>indicators := indicators data @ [''Currency: INR'']\<rparr>
      else data)"

definition address_indicators :: "string list" where
  "address_indicators = [''pin-code'', ''pincode'', ''postal-code-in'', ''india-zip'', ''india-post'']"

definition address_step :: "string \<Rightarrow> string \<Rightarrow> shopify_data \<Rightarrow> shopify_data" where
  \<comment> \<open>check 6: the body of the loop over \<open>address_indicators\<close>\<close>
  "address_step html_content indicator data =
     (if str_in indicator (lower html_content)
      then data\<lparr>indicators := indicators data @ [''Indian address format: '' @ indicator]\<rparr>
      else data)"

definition extract_shopify_data :: "locale_world \<Rightarrow> string \<Rightarrow> shopify_data" where
  "extract_shopify_data w html_content =
     (let data = \<lparr>country_code = None, shop_id = None, indicators = []\<rparr>;
          data = locale_step w html_content data;
          data = fold meta_step (find_all_meta w html_content) data;
          data = fold (script_step w) (find_all_script w html_content) data;
          data = currency_step w html_content data;
          data = fold (address_step html_content) address_indicators data
      in data)"

definition confidence_of :: "shopify_data \<Rightarrow> nat" where
  \<comment> \<open>"25% per indicator", "Cap at 100%"\<close>
  "confidence_of data = min (length (indicators data) * 25) 100"

definition check_domain_script :: "locale_world \<Rightarrow> string \<Rightarrow> filesystem \<Rightarrow> unit \<times> filesystem" where
  \<comment> \<open>the function returns \<open>None\<close> on every path, and the handler skips every exception\<close>
  "check_domain_script w d0 fs =
     (let d = ensure_https d0 in
      case session_get w d of
        Fails e \<Rightarrow> ((), fs)
      | Response st html_content \<Rightarrow>
          if st \<noteq> 200 then ((), fs)
          else
            (let data = extract_shopify_data w html_content in
             if country_code data = Some ''IN'' \<or> indicators data \<noteq> [] then
               (let confidence = confidence_of data in
                if confidence \<ge> 25 then
                  ((), save_indian_domain w d confidence (join '', '' (indicators data))
                         (country_code data) (shop_id data) fs)
                else ((), fs))
             else ((), fs)))"

definition process_domains_script ::
  "locale_world \<Rightarrow> (nat \<Rightarrow> nat) \<Rightarrow> string list \<Rightarrow> filesystem \<Rightarrow> filesystem" where
  "process_domains_script w prio domains fs =
     snd (gather prio (map (check_domain_script w) domains) fs)"

fun run_batches_script ::
  "locale_world \<Rightarrow> (nat \<Rightarrow> nat \<Rightarrow> nat) \<Rightarrow> nat \<Rightarrow> string list list \<Rightarrow> filesystem \<Rightarrow> filesystem" where
  "run_batches_script w sched k [] fs = fs"
| "run_batches_script w sched k (batch # rest) fs =
     run_batches_script w sched (Suc k) rest (process_domains_script w (sched k) batch fs)"

definition main_script ::
  "locale_world \<Rightarrow> (nat \<Rightarrow> nat \<Rightarrow> nat) \<Rightarrow> string list \<Rightarrow> filesystem \<Rightarrow> outcome \<times> filesystem" where
  "main_script w sched argv fs =
     (if length argv < 2 then (SystemExit 1 usage, fs)
      else
        (let csv_file = argv ! 1 in
         case load_domains_from_csv w csv_file of
           Inl e \<Rightarrow> (Uncaught e, fs)
         | Inr domains \<Rightarrow> (Finished, run_batches_script w sched 0 (main_batches domains) fs)))"

definition module_script ::
  "locale_world \<Rightarrow> (nat \<Rightarrow> nat \<Rightarrow> nat) \<Rightarrow> string list \<Rightarrow> filesystem \<Rightarrow> outcome \<times> filesystem" where
  \<comment> \<open>\<open>python script.py ...\<close>: the module-level statements, then \<open>asyncio.run(main())\<close>\<close>
  "module_script w sched argv fs =
     main_script w sched argv
       (write_header (INDIAN_DOMAINS_FILE w)
          [''Domain'', ''Confidence'', ''Indicators'', ''Country_Code'', ''Shop_ID'', ''Timestamp'']
          fs)"

section \<open>What a unit of work writes\<close>

definition written :: "(filesystem \<Rightarrow> 'r \<times> filesystem) \<Rightarrow> string \<Rightarrow> cell list list" where
  "written t name = rows_of (snd (t Map.empty)) name"

definition appender :: "(filesystem \<Rightarrow> 'r \<times> filesystem) \<Rightarrow> bool" where
  "appender t =
     (\<forall>fs. fst (t fs) = fst (t Map.empty) \<and>
           (\<forall>name. rows_of (snd (t fs)) name = rows_of fs name @ written t name))"


section \<open>The labels the locale checks add\<close>









section \<open>The order of events in the batch loop\<close>

text \<open>
  The loop of both \<open>main\<close> functions awaits \<open>process_domains(batch)\<close> batch after batch, and
  \<open>process_domains\<close> awaits \<open>gather\<close> over the units of the batch. The events of a run are
  the moments a unit begins and returns; a unit is named by the number of its batch and
  its position in the batch. \<open>gather\<close> returns when every unit it started has returned,
  and only then the loop enters the next batch; \<open>gather\<close> over no unit returns at once.
  Within a batch the units begin and return in any order.
\<close>

datatype event = Begin nat nat | Return nat nat

datatype loop_state =
    Awaiting nat "nat list" "nat list" "nat list"
    \<comment> \<open>the number of the batch awaited, its units not begun, its units begun and not
       returned, the sizes of the batches after it\<close>
  | LoopDone

fun enter :: "nat \<Rightarrow> nat list \<Rightarrow> loop_state" where
  "enter k [] = LoopDone"
| "enter k (n # later) =
     (if n = 0 then enter (Suc k) later else Awaiting k [0..<n] [] later)"

fun step :: "loop_state \<Rightarrow> event \<Rightarrow> loop_state option" where
  "step LoopDone e = None"
| "step (Awaiting k waiting running later) (Begin b u) =
     (if b = k \<and> u \<in> set waiting
      then Some (Awaiting k (remove1 u waiting) (u # running) later)
      else None)"
| "step (Awaiting k waiting running later) (Return b u) =
     (if b = k \<and> u \<in> set running then
        (if waiting = [] \<and> remove1 u running = [] then Some (enter (Suc k) later)
         else Some (Awaiting k waiting (remove1 u running) later))
      else None)"






section \<open>Example runs\<close>

text \<open>
  The run of the specification's end-to-end example for the widget pipeline: the input
  file \<open>in.csv\<close> lists \<open>a.com\<close> and \<open>b.com\<close>; \<open>a.com\<close> answers 200 with the widget's
  script in its markup, every other request times out. The file \<open>dup.csv\<close> lists
  \<open>a.com\<close> twice.
\<close>

definition demo_world :: probe_world where
  "demo_world =
     \<lparr>session_get = (\<lambda>url. if url = ''https://a.com''
                            then Response 200 ''<script src=/VerifyPass.JS></script>''
                            else Fails TimeoutError),
      current_time = (\<lambda>url. ''2024-01-01 00:00:05''),
      csv_reader = (\<lambda>filename.
                      if filename = ''in.csv''
                      then Some [[''Domain'' \<mapsto> ''a.com''], [''Domain'' \<mapsto> ''b.com'']]
                      else if filename = ''dup.csv''
                      then Some [[''Domain'' \<mapsto> ''a.com''], [''Domain'' \<mapsto> ''a.com'']]
                      else None),
      TIMESTAMP = ''20240101_000000'',
      results_timestamp = ''20240101_000009''\<rparr>"

text \<open>
  A storefront whose markup holds the \<open>og:locale\<close> tag twice, and nothing else the checks
  look for.
\<close>

definition demo_markup :: string where
  "demo_markup =
     ''<meta property=og:locale content=en_IN><meta property=og:locale content=en_IN>''"

definition demo_locale_world :: locale_world where
  "demo_locale_world =
     \<lparr>session_get = (\<lambda>url. if url = ''https://a.com'' then Response 200 demo_markup
                            else Fails TimeoutError),
      current_time = (\<lambda>url. ''2024-01-01 00:00:05''),
      csv_reader = (\<lambda>filename.
                      if filename = ''in.csv''
                      then Some [[''Domain'' \<mapsto> ''a.com''], [''Domain'' \<mapsto> ''b.com'']]
                      else if filename = ''dup.csv''
                      then Some [[''Domain'' \<mapsto> ''a.com''], [''Domain'' \<mapsto> ''a.com'']]
                      else None),
      TIMESTAMP = ''20240101_000000'',
      results_timestamp = ''20240101_000009'',
      re_search_locale = (\<lambda>html_content. None),
      find_all_meta = (\<lambda>html_content.
                         if html_content = demo_markup
                         then [\<lparr>meta_property = Some ''og:locale'', meta_name = None,
                                 meta_content = Some ''en_IN''\<rparr>,
                               \<lparr>meta_property = Some ''og:locale'', meta_name = None,
                                 meta_content = Some ''en_IN''\<rparr>]
                         else []),
      find_all_script = (\<lambda>html_content. []),
      re_search_shop = (\<lambda>script_text. None),
      json_loads = (\<lambda>text. None),
      re_search_currency = (\<lambda>k html_content. False)\<rparr>"

text \<open>
  A directory of zone \<open>com\<close> with three pages: the request for page 1 fails, page 2
  lists \<open>widgetshop.com\<close> and \<open>shop.com.uk\<close>, page 3, the last one, lists
  \<open>lastshop.com\<close>; every other page answers 404.
\<close>

definition demo_directory :: discovery_world where
  "demo_directory =
     \<lparr>http_get = (\<lambda>url. if url = ''https://onshopify.com/domain-zone/com/1''
                         then Fails (OtherError ''Connection reset'')
                         else if url = ''https://onshopify.com/domain-zone/com/2''
                         then Response 200 ''page 2''
                         else if url = ''https://onshopify.com/domain-zone/com/3''
                         then Response 200 ''page 3''
                         else Response 404 []),
      candidates = (\<lambda>text. if text = ''page 2'' then ['' widgetshop.com '', ''shop.com.uk'']
                            else if text = ''page 3'' then [''lastshop.com'']
                            else []),
      now = (\<lambda>page_num. ''2024-01-01 00:00:05'')\<rparr>"

text \<open>The scheduler under which the units of every batch complete in the order of the input.\<close>

definition input_order :: "nat \<Rightarrow> nat \<Rightarrow> nat" where
  "input_order k i = i"

section \<open>Strings\<close>

lemma sublist_map_iff: "sublist m (map f xs) \<longleftrightarrow> (\<exists>s. sublist s xs \<and> map f s = m)"
proof
  assume "sublist m (map f xs)"
  then obtain ps ss where "map f xs = ps @ m @ ss" by (auto simp: sublist_def)
  then obtain us rest where 1: "xs = us @ rest" "map f rest = m @ ss"
    by (metis map_eq_append_conv)
  from 1(2) obtain s vs where 2: "rest = s @ vs" "map f s = m"
    by (metis map_eq_append_conv)
  from 1(1) 2 show "\<exists>s. sublist s xs \<and> map f s = m" by (auto simp: sublist_def)
next
  assume "\<exists>s. sublist s xs \<and> map f s = m"
  then obtain s ps ss where "xs = ps @ s @ ss" "map f s = m" by (auto simp: sublist_def)
  then have "map f xs = map f ps @ m @ map f ss" by simp
  then show "sublist m (map f xs)" unfolding sublist_def by blast
qed

section \<open>The pages the discovery pipeline fetches\<close>

lemma fetch_pages_upto: "set (fetch_pages last_page) = {1..last_page - 1}"
  by (simp add: fetch_pages_def py_range_def)

text \<open>
  C1. The claim: \<open>fetch\<close> creates one task for every page from 1 to \<open>last_page\<close>
  inclusive. The code iterates over \<open>range(1, last_page)\<close>, which stops before
  \<open>last_page\<close>: with last page 3 the tasks are those of pages 1 and 2, and page 3 is
  never requested, although the program announces "Scraping till page number 3". In the
  example directory the domain of the last page never reaches the result or the output
  file.
\<close>

theorem fetch_skips_last_page:
  "fetch_pages 3 = [1, 2] \<and> 3 \<notin> set (fetch_pages 3) \<and>
   fst (fetch demo_directory (input_order 0) ''com'' ''out.csv'' 3 Map.empty)
     = [''widgetshop.com''] \<and>
   rows_of (snd (fetch demo_directory (input_order 0) ''com'' ''out.csv'' 3 Map.empty)) ''out.csv''
     = [[CInt 2, CStr ''widgetshop.com'', CStr ''2024-01-01 00:00:05'']]"
  by code_simp

section \<open>The URL of a probed domain\<close>

text \<open>
  C8. The claim: \<open>https://\<close> is prepended if and only if the string carries no URL
  scheme. The code tests \<open>startswith('http')\<close>, which a domain name such as
  \<open>httpbin.org\<close> passes: it is requested as it stands, with no scheme, against the
  code's own comment "Ensure domain has https://". (In the other direction a string
  with another scheme, such as \<open>ftp://a.com\<close>, gets the prefix.)
\<close>

theorem ensure_https_misses_http_names:
  "ensure_https ''httpbin.org'' = ''httpbin.org'' \<and>
   \<not> str_in ''://'' (ensure_https ''httpbin.org'') \<and>
   domain (fst (check_domain_main2 demo_world ''httpbin.org'' Map.empty)) = ''httpbin.org'' \<and>
   ensure_https ''ftp://a.com'' = ''https://ftp://a.com''"
  by code_simp

section \<open>The widget extractor\<close>

text \<open>
  C3. For a response with status 200, the \<open>verifypass\<close> field of the record
  \<open>check_domain\<close> returns is true exactly when the body has a substring that is one of
  the four markers up to the case of its letters (its lower-case form is the marker).
\<close>

theorem widget_detected_iff:
  assumes "session_get w (ensure_https d0) = Response 200 body"
  shows "verifypass (fst (check_domain_main2 w d0 fs)) =
           (\<exists>marker \<in> set verifypass_indicators. \<exists>s. sublist s body \<and> lower s = marker)"
  using assms
  by (simp add: check_domain_main2_def Let_def has_verifypass_def list_ex_iff str_in_def
      lower_def sublist_map_iff)

theorem widget_detected_iff_witness:
  "session_get demo_world (ensure_https ''a.com'')
     = Response 200 ''<script src=/VerifyPass.JS></script>'' \<and>
   verifypass (fst (check_domain_main2 demo_world ''a.com'' Map.empty)) \<and>
   (\<exists>marker \<in> set verifypass_indicators.
      \<exists>s. sublist s ''<script src=/VerifyPass.JS></script>'' \<and> lower s = marker)"
proof -
  have h: "session_get demo_world (ensure_https ''a.com'')
             = Response 200 ''<script src=/VerifyPass.JS></script>''"
    by (simp add: demo_world_def ensure_https_def startswith_def)
  have v: "verifypass (fst (check_domain_main2 demo_world ''a.com'' Map.empty))"
    by code_simp
  show ?thesis
    using h v widget_detected_iff [OF h, of Map.empty] by simp
qed

section \<open>Units that append rows\<close>

lemma rows_of_empty: "rows_of Map.empty name = []"
  by (simp add: rows_of_def)

lemma rows_of_append_row:
  "rows_of (append_row name row fs) name' =
     (if name' = name then rows_of fs name @ [row] else rows_of fs name')"
  by (simp add: rows_of_def append_row_def)

lemma rows_of_fold_append_row:
  "rows_of (fold (\<lambda>x. append_row name (f x)) xs fs) name' =
     (if name' = name then rows_of fs name @ map f xs else rows_of fs name')"
  by (induction xs arbitrary: fs) (simp_all add: rows_of_append_row)

lemma run_tasks_rows:
  assumes "\<forall>i \<in> set order. appender (tasks ! i)"
  shows "rows_of (snd (run_tasks tasks order fs)) name =
           rows_of fs name @ concat (map (\<lambda>i. written (tasks ! i) name) order)"
  using assms
proof (induction order arbitrary: fs)
  case Nil
  then show ?case by simp
next
  case (Cons i order)
  from Cons.prems have a: "appender (tasks ! i)" by simp
  have "rows_of (snd (run_tasks tasks (i # order) fs)) name =
          rows_of (snd (run_tasks tasks order (snd ((tasks ! i) fs)))) name"
    by (simp add: case_prod_beta)
  also have "\<dots> = rows_of (snd ((tasks ! i) fs)) name
                 @ concat (map (\<lambda>i. written (tasks ! i) name) order)"
    using Cons by simp
  also have "rows_of (snd ((tasks ! i) fs)) name = rows_of fs name @ written (tasks ! i) name"
    using a by (simp add: appender_def)
  finally show ?case by simp
qed

lemma run_tasks_results:
  assumes "\<forall>i \<in> set order. appender (tasks ! i)" and "i \<in> set order"
  shows "map_of (fst (run_tasks tasks order fs)) i = Some (fst ((tasks ! i) Map.empty))"
  using assms
proof (induction order arbitrary: fs)
  case Nil
  then show ?case by simp
next
  case (Cons j order)
  show ?case
  proof (cases "i = j")
    case True
    with Cons.prems show ?thesis by (simp add: case_prod_beta appender_def)
  next
    case False
    with Cons show ?thesis by (simp add: case_prod_beta)
  qed
qed

lemma gather_results:
  assumes "\<forall>t \<in> set tasks. appender t"
  shows "fst (gather prio tasks fs) = map (\<lambda>t. fst (t Map.empty)) tasks"
proof -
  let ?order = "sort_key prio [0..<length tasks]"
  have ok: "\<forall>i \<in> set ?order. appender (tasks ! i)"
    using assms by simp
  have "fst (gather prio tasks fs) =
          map (\<lambda>i. the (map_of (fst (run_tasks tasks ?order fs)) i)) [0..<length tasks]"
    by (simp add: gather_def case_prod_beta Let_def)
  also have "\<dots> = map (\<lambda>i. fst ((tasks ! i) Map.empty)) [0..<length tasks]"
    using run_tasks_results [OF ok] by simp
  also have "\<dots> = map (\<lambda>t. fst (t Map.empty)) (map (nth tasks) [0..<length tasks])"
    by simp
  finally show ?thesis by (simp only: map_nth)
qed

lemma gather_rows:
  assumes "\<forall>t \<in> set tasks. appender t"
  shows "rows_of (snd (gather prio tasks fs)) name =
           rows_of fs name @
             concat (map (\<lambda>i. written (tasks ! i) name) (sort_key prio [0..<length tasks]))"
proof -
  have ok: "\<forall>i \<in> set (sort_key prio [0..<length tasks]). appender (tasks ! i)"
    using assms by simp
  show ?thesis
    using run_tasks_rows [OF ok] by (simp add: gather_def case_prod_beta Let_def)
qed

lemma mset_concat_map_perm:
  assumes "mset xs = mset ys"
  shows "mset (concat (map f xs)) = mset (concat (map f ys))"
proof -
  have "mset (concat (map f zs)) = (\<Sum>z \<in># mset zs. mset (f z))" for zs
    by (induction zs) simp_all
  with assms show ?thesis by simp
qed

lemma gather_rows_mset:
  assumes "\<forall>t \<in> set tasks. appender t"
  shows "mset (rows_of (snd (gather prio tasks fs)) name) =
           mset (rows_of fs name) + mset (concat (map (\<lambda>t. written t name) tasks))"
proof -
  have "mset (concat (map (\<lambda>i. written (tasks ! i) name) (sort_key prio [0..<length tasks])))
          = mset (concat (map (\<lambda>i. written (tasks ! i) name) [0..<length tasks]))"
    by (rule mset_concat_map_perm) simp
  also have "map (\<lambda>i. written (tasks ! i) name) [0..<length tasks]
               = map (\<lambda>t. written t name) (map (nth tasks) [0..<length tasks])"
    by simp
  also have "\<dots> = map (\<lambda>t. written t name) tasks"
    by (simp only: map_nth)
  finally show ?thesis
    using gather_rows [OF assms, of prio fs name] by simp
qed

lemma appender_check_domain_main2: "appender (check_domain_main2 w d)"
  by (simp add: appender_def written_def check_domain_main2_def Let_def
      save_verifypass_domain_def rows_of_append_row rows_of_empty
      split: http.split failure.split)

lemma appender_check_domain_script: "appender (check_domain_script w d)"
  by (simp add: appender_def written_def check_domain_script_def Let_def
      save_indian_domain_def rows_of_append_row rows_of_empty
      split: http.split)

lemma rows_of_save_to_csv:
  "rows_of (save_to_csv w out ds p fs) name =
     (if name = out then rows_of fs out @ map (\<lambda>d. [CInt p, CStr d, CStr (now w p)]) ds
      else rows_of fs name)"
  by (simp add: save_to_csv_def rows_of_fold_append_row)

lemma appender_scrape: "appender (scrape w zone out p)"
  by (simp add: appender_def written_def scrape_def Let_def rows_of_save_to_csv rows_of_empty
      split: http.split)

lemma written_check_domain_main2:
  "written (check_domain_main2 w d) name =
     (if name = VERIFYPASS_FILE w \<and> verifypass (fst (check_domain_main2 w d Map.empty))
      then [[CStr (ensure_https d), CStr (current_time w (ensure_https d)), CInt 200]]
      else [])"
  by (simp add: written_def check_domain_main2_def Let_def save_verifypass_domain_def
      rows_of_append_row rows_of_empty split: http.split failure.split)

lemma written_scrape:
  "written (scrape w zone out p) name =
     (if name = out
      then map (\<lambda>d. [CInt p, CStr d, CStr (now w p)])
             (case fst (scrape w zone out p Map.empty) of Inr (Some ds) \<Rightarrow> ds | _ \<Rightarrow> [])
      else [])"
  by (simp add: written_def scrape_def Let_def rows_of_save_to_csv rows_of_empty
      split: http.split)

section \<open>The suffix filter of the discovery pipeline\<close>

lemma scrape_appends:
  "rows_of (snd (scrape w zone out p fs)) name = rows_of fs name @ written (scrape w zone out p) name"
  using appender_scrape [of w zone out p] by (simp add: appender_def)

lemma scrape_page_domains:
  assumes "http_get w (page_url zone p) = Response 200 text"
  shows "fst (scrape w zone out p fs) =
           Inr (Some (map strip (filter (\<lambda>link. endswith (strip link) (''.'' @ zone))
                                   (candidates w text))))"
  using assms by (simp add: scrape_def Let_def)

lemma page_row_in_written:
  assumes "http_get w (page_url zone p) = Response 200 text"
  shows "[CInt p, CStr d, CStr (now w p)] \<in> set (written (scrape w zone out p) out)
           \<longleftrightarrow> (\<exists>link \<in> set (candidates w text). strip link = d \<and> endswith d (''.'' @ zone))"
  using scrape_page_domains [OF assms, of out Map.empty]
  by (auto simp: written_scrape)

text \<open>
  C4. On a page that was fetched with status 200, the row of a candidate element (the
  page number, its trimmed text, the time) is among the rows \<open>scrape\<close> appends to the
  output file exactly when the trimmed text ends with a dot followed by the zone.
\<close>

theorem suffix_filter:
  assumes "http_get w (page_url zone page_num) = Response 200 text"
    and "link \<in> set (candidates w text)"
  shows "[CInt page_num, CStr (strip link), CStr (now w page_num)]
           \<in> set (drop (length (rows_of fs out)) (rows_of (snd (scrape w zone out page_num fs)) out))
         \<longleftrightarrow> (\<exists>pre. strip link = pre @ ''.'' @ zone)"
proof -
  have "drop (length (rows_of fs out)) (rows_of (snd (scrape w zone out page_num fs)) out)
          = written (scrape w zone out page_num) out"
    by (simp add: scrape_appends)
  moreover have "endswith (strip link) (''.'' @ zone) \<longleftrightarrow> (\<exists>pre. strip link = pre @ ''.'' @ zone)"
    by (simp add: endswith_def suffix_def)
  ultimately show ?thesis
    using assms(2) page_row_in_written [OF assms(1), of "strip link" out] by auto
qed

theorem suffix_filter_witness:
  "http_get demo_directory (page_url ''com'' 2) = Response 200 ''page 2'' \<and>
   '' widgetshop.com '' \<in> set (candidates demo_directory ''page 2'') \<and>
   ''shop.com.uk'' \<in> set (candidates demo_directory ''page 2'') \<and>
   [CInt 2, CStr ''widgetshop.com'', CStr ''2024-01-01 00:00:05'']
     \<in> set (drop (length (rows_of Map.empty ''out.csv''))
          (rows_of (snd (scrape demo_directory ''com'' ''out.csv'' 2 Map.empty)) ''out.csv'')) \<and>
   [CInt 2, CStr ''shop.com.uk'', CStr ''2024-01-01 00:00:05'']
     \<notin> set (drop (length (rows_of Map.empty ''out.csv''))
          (rows_of (snd (scrape demo_directory ''com'' ''out.csv'' 2 Map.empty)) ''out.csv''))"
proof -
  have h1: "http_get demo_directory (page_url ''com'' 2) = Response 200 ''page 2''"
    by (simp add: demo_directory_def page_url_def str_of_int_def str_of_nat.simps digit_def)
  have h2: "'' widgetshop.com '' \<in> set (candidates demo_directory ''page 2'')"
    by (simp add: demo_directory_def)
  have h3: "''shop.com.uk'' \<in> set (candidates demo_directory ''page 2'')"
    by (simp add: demo_directory_def)
  have s1: "strip '' widgetshop.com '' = ''widgetshop.com''"
    by (simp add: strip_def isspace_def)
  have s2: "strip ''shop.com.uk'' = ''shop.com.uk''"
    by (simp add: strip_def isspace_def)
  have n: "now demo_directory 2 = ''2024-01-01 00:00:05''"
    by (simp add: demo_directory_def)
  have e1: "\<exists>pre. ''widgetshop.com'' = pre @ ''.'' @ ''com''"
    by (rule exI [of _ "''widgetshop''"]) simp
  have e2: "\<not> (\<exists>pre. ''shop.com.uk'' = pre @ ''.'' @ ''com'')"
  proof -
    have "\<not> suffix (''.'' @ ''com'') ''shop.com.uk''"
      by (simp add: suffix_to_prefix)
    then show ?thesis unfolding suffix_def by blast
  qed
  show ?thesis
    using h1 h2 h3 e1 e2
      suffix_filter [OF h1 h2, of Map.empty "''out.csv''"]
      suffix_filter [OF h1 h3, of Map.empty "''out.csv''"]
    by (simp only: s1 s2 n) blast
qed

section \<open>What the pipelines return and write\<close>

lemma gather_rows_ex:
  assumes "\<forall>t \<in> set tasks. appender t"
  shows "\<exists>extra. rows_of (snd (gather prio tasks fs)) name = rows_of fs name @ extra \<and>
                 mset extra = mset (concat (map (\<lambda>t. written t name) tasks))"
proof -
  from gather_rows [OF assms, of prio fs name] gather_rows_mset [OF assms, of prio fs name]
  show ?thesis by auto
qed

lemma process_domains_main2_results:
  "fst (process_domains_main2 w prio domains fs) =
     map (\<lambda>d. fst (check_domain_main2 w d Map.empty)) domains"
  by (simp add: process_domains_main2_def gather_results appender_check_domain_main2 comp_def)

lemma process_domains_main2_rows:
  "\<exists>extra. rows_of (snd (process_domains_main2 w prio domains fs)) name = rows_of fs name @ extra \<and>
           mset extra = mset (concat (map (\<lambda>d. written (check_domain_main2 w d) name) domains))"
proof -
  have "\<forall>t \<in> set (map (check_domain_main2 w) domains). appender t"
    by (simp add: appender_check_domain_main2)
  from gather_rows_ex [OF this, of prio fs name]
  show ?thesis by (simp add: process_domains_main2_def comp_def)
qed

lemma process_domains_script_rows:
  "\<exists>extra. rows_of (process_domains_script w prio domains fs) name = rows_of fs name @ extra \<and>
           mset extra = mset (concat (map (\<lambda>d. written (check_domain_script w d) name) domains))"
proof -
  have "\<forall>t \<in> set (map (check_domain_script w) domains). appender t"
    by (simp add: appender_check_domain_script)
  from gather_rows_ex [OF this, of prio fs name]
  show ?thesis by (simp add: process_domains_script_def comp_def)
qed


lemma run_batches_main2_rows:
  "\<exists>extra. rows_of (snd (run_batches_main2 w sched k batches results fs)) name
             = rows_of fs name @ extra \<and>
           mset extra
             = mset (concat (map (\<lambda>d. written (check_domain_main2 w d) name) (concat batches)))"
proof (induction batches arbitrary: k results fs)
  case Nil
  then show ?case by simp
next
  case (Cons batch rest)
  let ?p = "process_domains_main2 w (sched k) batch fs"
  obtain e1 where e1: "rows_of (snd ?p) name = rows_of fs name @ e1"
    "mset e1 = mset (concat (map (\<lambda>d. written (check_domain_main2 w d) name) batch))"
    using process_domains_main2_rows by blast
  obtain e2 where e2:
    "rows_of (snd (run_batches_main2 w sched (Suc k) rest (results @ fst ?p) (snd ?p))) name
       = rows_of (snd ?p) name @ e2"
    "mset e2 = mset (concat (map (\<lambda>d. written (check_domain_main2 w d) name) (concat rest)))"
    using Cons.IH by blast
  have "rows_of (snd (run_batches_main2 w sched k (batch # rest) results fs)) name
          = rows_of fs name @ (e1 @ e2)"
    using e1(1) e2(1) by (simp add: case_prod_beta)
  moreover have "mset (e1 @ e2)
      = mset (concat (map (\<lambda>d. written (check_domain_main2 w d) name) (concat (batch # rest))))"
    using e1(2) e2(2) by simp
  ultimately show ?case by blast
qed

lemma run_batches_script_rows:
  "\<exists>extra. rows_of (run_batches_script w sched k batches fs) name = rows_of fs name @ extra \<and>
           mset extra
             = mset (concat (map (\<lambda>d. written (check_domain_script w d) name) (concat batches)))"
proof (induction batches arbitrary: k fs)
  case Nil
  then show ?case by simp
next
  case (Cons batch rest)
  let ?p = "process_domains_script w (sched k) batch fs"
  obtain e1 where e1: "rows_of ?p name = rows_of fs name @ e1"
    "mset e1 = mset (concat (map (\<lambda>d. written (check_domain_script w d) name) batch))"
    using process_domains_script_rows by blast
  obtain e2 where e2:
    "rows_of (run_batches_script w sched (Suc k) rest ?p) name = rows_of ?p name @ e2"
    "mset e2 = mset (concat (map (\<lambda>d. written (check_domain_script w d) name) (concat rest)))"
    using Cons.IH by blast
  have "rows_of (run_batches_script w sched k (batch # rest) fs) name = rows_of fs name @ (e1 @ e2)"
    using e1(1) e2(1) by simp
  moreover have "mset (e1 @ e2)
      = mset (concat (map (\<lambda>d. written (check_domain_script w d) name) (concat (batch # rest))))"
    using e1(2) e2(2) by simp
  ultimately show ?case by blast
qed

lemma concat_range_step:
  "0 < n \<Longrightarrow> concat (map (\<lambda>i. take n (drop i xs)) (range_step i (length xs) n)) = drop i xs"
proof (induction i "length xs" n rule: range_step.induct)
  case (1 i step)
  show ?case
  proof (cases "i < length xs")
    case True
    with 1 have "concat (map (\<lambda>i. take step (drop i xs)) (range_step (i + step) (length xs) step))
                   = drop (i + step) xs"
      by simp
    moreover have "take step (drop i xs) @ drop (i + step) xs = drop i xs"
      by (metis add.commute append_take_drop_id drop_drop)
    ultimately show ?thesis
      using True 1(2) by (subst range_step.simps) simp
  next
    case False
    then show ?thesis by (subst range_step.simps) simp
  qed
qed

lemma concat_main_batches: "concat (main_batches domains) = domains"
  using concat_range_step [of batch_size domains 0]
  by (simp add: main_batches_def batch_size_def)


section \<open>A failing unit and its siblings\<close>

lemma fetch_domains:
  "fst (fetch w prio zone out last_page fs) =
     concat (map (\<lambda>p. case fst (scrape w zone out p Map.empty) of Inr (Some ds) \<Rightarrow> ds | _ \<Rightarrow> [])
               (fetch_pages last_page))"
  by (simp add: fetch_def Let_def case_prod_beta gather_results appender_scrape comp_def)

lemma fetch_rows:
  "\<exists>extra. rows_of (snd (fetch w prio zone out last_page fs)) name = rows_of fs name @ extra \<and>
           mset extra
             = mset (concat (map (\<lambda>p. written (scrape w zone out p) name) (fetch_pages last_page)))"
proof -
  have "\<forall>t \<in> set (map (scrape w zone out) (fetch_pages last_page)). appender t"
    by (simp add: appender_scrape)
  from gather_rows_ex [OF this, of prio fs name]
  show ?thesis by (simp add: fetch_def Let_def case_prod_beta comp_def)
qed

lemma written_row_reaches_file:
  assumes "rows_of fs' name = rows_of fs name @ extra"
    and "mset extra = mset (concat (map W xs))"
    and "x \<in> set xs" and "row \<in> set (W x)"
  shows "row \<in> set (rows_of fs' name)"
proof -
  from assms(3,4) have "row \<in> set (concat (map W xs))" by auto
  then have "row \<in># mset (concat (map W xs))" by (simp only: set_mset_mset)
  with assms(2) have "row \<in> set extra" by (metis set_mset_mset)
  with assms(1) show ?thesis by simp
qed

lemma isolation_main2:
  assumes "i < length domains"
    and "session_get w (ensure_https (domains ! i)) = Fails f"
  shows "length (fst (process_domains_main2 w prio domains fs)) = length domains"
    and "fst (process_domains_main2 w prio domains fs) ! i =
           \<lparr>domain = ensure_https (domains ! i), valid = False, status = None,
            verifypass = False,
            error = Some (case f of TimeoutError \<Rightarrow> ''Timeout'' | OtherError e \<Rightarrow> e)\<rparr>"
    and "j < length domains \<Longrightarrow>
         session_get w (ensure_https (domains ! j)) = Response 200 body \<Longrightarrow>
           valid (fst (process_domains_main2 w prio domains fs) ! j) \<and>
           verifypass (fst (process_domains_main2 w prio domains fs) ! j) = has_verifypass body \<and>
           (has_verifypass body \<longrightarrow>
              [CStr (ensure_https (domains ! j)), CStr (current_time w (ensure_https (domains ! j))),
               CInt 200]
                \<in> set (rows_of (snd (process_domains_main2 w prio domains fs)) (VERIFYPASS_FILE w)))"
proof -
  show "length (fst (process_domains_main2 w prio domains fs)) = length domains"
    by (simp add: process_domains_main2_results)
  show "fst (process_domains_main2 w prio domains fs) ! i =
           \<lparr>domain = ensure_https (domains ! i), valid = False, status = None,
            verifypass = False,
            error = Some (case f of TimeoutError \<Rightarrow> ''Timeout'' | OtherError e \<Rightarrow> e)\<rparr>"
    using assms
    by (simp add: process_domains_main2_results check_domain_main2_def Let_def
        split: failure.split)
next
  assume j: "j < length domains"
    and ok: "session_get w (ensure_https (domains ! j)) = Response 200 body"
  let ?row = "[CStr (ensure_https (domains ! j)), CStr (current_time w (ensure_https (domains ! j))),
               CInt 200]"
  have r: "fst (process_domains_main2 w prio domains fs) ! j =
             \<lparr>domain = ensure_https (domains ! j), valid = True, status = Some 200,
              verifypass = has_verifypass body, error = None\<rparr>"
    using j ok by (simp add: process_domains_main2_results check_domain_main2_def Let_def)
  have "?row \<in> set (rows_of (snd (process_domains_main2 w prio domains fs)) (VERIFYPASS_FILE w))"
    if hv: "has_verifypass body"
  proof -
    obtain extra where e:
      "rows_of (snd (process_domains_main2 w prio domains fs)) (VERIFYPASS_FILE w)
         = rows_of fs (VERIFYPASS_FILE w) @ extra"
      "mset extra
         = mset (concat (map (\<lambda>d. written (check_domain_main2 w d) (VERIFYPASS_FILE w)) domains))"
      using process_domains_main2_rows by blast
    have "verifypass (fst (check_domain_main2 w (domains ! j) Map.empty))"
      using ok hv by (simp add: check_domain_main2_def Let_def)
    then have "?row \<in> set (written (check_domain_main2 w (domains ! j)) (VERIFYPASS_FILE w))"
      by (simp add: written_check_domain_main2)
    moreover have "domains ! j \<in> set domains" using j by simp
    ultimately show ?thesis
      using written_row_reaches_file [OF e] by blast
  qed
  with r show "valid (fst (process_domains_main2 w prio domains fs) ! j) \<and>
           verifypass (fst (process_domains_main2 w prio domains fs) ! j) = has_verifypass body \<and>
           (has_verifypass body \<longrightarrow>
              ?row \<in> set (rows_of (snd (process_domains_main2 w prio domains fs)) (VERIFYPASS_FILE w)))"
    by simp
qed

lemma isolation_fetch:
  assumes "q \<in> set (fetch_pages last_page)"
    and "http_get w (page_url zone q) = Response 200 text"
    and "link \<in> set (candidates w text)"
    and "endswith (strip link) (''.'' @ zone)"
  shows "strip link \<in> set (fst (fetch w prio zone out last_page fs))"
    and "[CInt q, CStr (strip link), CStr (now w q)]
           \<in> set (rows_of (snd (fetch w prio zone out last_page fs)) out)"
proof -
  have d: "fst (scrape w zone out q Map.empty) =
             Inr (Some (map strip (filter (\<lambda>link. endswith (strip link) (''.'' @ zone))
                                     (candidates w text))))"
    by (rule scrape_page_domains [OF assms(2)])
  have "strip link \<in> set (map strip (filter (\<lambda>link. endswith (strip link) (''.'' @ zone))
                                     (candidates w text)))"
    using assms(3,4) by auto
  with assms(1) d show "strip link \<in> set (fst (fetch w prio zone out last_page fs))"
    by (simp only: fetch_domains) force
  obtain extra where e:
    "rows_of (snd (fetch w prio zone out last_page fs)) out = rows_of fs out @ extra"
    "mset extra = mset (concat (map (\<lambda>p. written (scrape w zone out p) out) (fetch_pages last_page)))"
    using fetch_rows by blast
  have "[CInt q, CStr (strip link), CStr (now w q)] \<in> set (written (scrape w zone out q) out)"
    using assms(3,4) by (auto simp: page_row_in_written [OF assms(2)])
  with assms(1) show "[CInt q, CStr (strip link), CStr (now w q)]
           \<in> set (rows_of (snd (fetch w prio zone out last_page fs)) out)"
    using written_row_reaches_file [OF e] by blast
qed

text \<open>
  C6. Widget pipeline: when the request of one domain of a batch fails (it times out, or
  raises another exception), \<open>process_domains\<close> still returns one record for every
  domain, the record of the failed domain carries the error (\<open>Timeout\<close>, or the text of
  the exception), and every domain that answered 200 has its record
  and, when the widget was detected, its row in the detections file. Discovery pipeline:
  when the request of one page raises, the task's result is the exception as a value, and
  every qualifying domain of every page that answered 200 is among the domains \<open>fetch\<close>
  returns and has its row in the output file. This holds for every order in which the
  units complete.
\<close>

theorem partial_failure_isolation:
  "(i < length domains \<and> session_get pw (ensure_https (domains ! i)) = Fails f \<longrightarrow>
      length (fst (process_domains_main2 pw prio domains fs)) = length domains \<and>
      fst (process_domains_main2 pw prio domains fs) ! i =
        \<lparr>domain = ensure_https (domains ! i), valid = False, status = None,
         verifypass = False,
         error = Some (case f of TimeoutError \<Rightarrow> ''Timeout'' | OtherError e \<Rightarrow> e)\<rparr> \<and>
      (\<forall>j body. j < length domains \<and>
           session_get pw (ensure_https (domains ! j)) = Response 200 body \<longrightarrow>
           valid (fst (process_domains_main2 pw prio domains fs) ! j) \<and>
           verifypass (fst (process_domains_main2 pw prio domains fs) ! j) = has_verifypass body \<and>
           (has_verifypass body \<longrightarrow>
              [CStr (ensure_https (domains ! j)),
               CStr (current_time pw (ensure_https (domains ! j))), CInt 200]
                \<in> set (rows_of (snd (process_domains_main2 pw prio domains fs))
                        (VERIFYPASS_FILE pw))))) \<and>
   (p \<in> set (fetch_pages last_page) \<and> http_get dw (page_url zone p) = Fails e \<longrightarrow>
      fst (scrape dw zone out p fs') = Inl e \<and>
      (\<forall>q text link. q \<in> set (fetch_pages last_page) \<and>
           http_get dw (page_url zone q) = Response 200 text \<and>
           link \<in> set (candidates dw text) \<and> endswith (strip link) (''.'' @ zone) \<longrightarrow>
           strip link \<in> set (fst (fetch dw prio' zone out last_page fs')) \<and>
           [CInt q, CStr (strip link), CStr (now dw q)]
             \<in> set (rows_of (snd (fetch dw prio' zone out last_page fs')) out)))"
proof -
  have widget: "length (fst (process_domains_main2 pw prio domains fs)) = length domains \<and>
      fst (process_domains_main2 pw prio domains fs) ! i =
        \<lparr>domain = ensure_https (domains ! i), valid = False, status = None,
         verifypass = False,
         error = Some (case f of TimeoutError \<Rightarrow> ''Timeout'' | OtherError e \<Rightarrow> e)\<rparr> \<and>
      (\<forall>j body. j < length domains \<and>
           session_get pw (ensure_https (domains ! j)) = Response 200 body \<longrightarrow>
           valid (fst (process_domains_main2 pw prio domains fs) ! j) \<and>
           verifypass (fst (process_domains_main2 pw prio domains fs) ! j) = has_verifypass body \<and>
           (has_verifypass body \<longrightarrow>
              [CStr (ensure_https (domains ! j)),
               CStr (current_time pw (ensure_https (domains ! j))), CInt 200]
                \<in> set (rows_of (snd (process_domains_main2 pw prio domains fs))
                        (VERIFYPASS_FILE pw))))"
    if a: "i < length domains \<and> session_get pw (ensure_https (domains ! i)) = Fails f"
  proof -
    from a have a1: "i < length domains"
      and a2: "session_get pw (ensure_https (domains ! i)) = Fails f"
      by simp_all
    show ?thesis
      using isolation_main2(1) [OF a1 a2, of prio fs] isolation_main2(2) [OF a1 a2, of prio fs]
        isolation_main2(3) [OF a1 a2, of _ _ prio fs]
      by blast
  qed
  have discovery: "fst (scrape dw zone out p fs') = Inl e \<and>
      (\<forall>q text link. q \<in> set (fetch_pages last_page) \<and>
           http_get dw (page_url zone q) = Response 200 text \<and>
           link \<in> set (candidates dw text) \<and> endswith (strip link) (''.'' @ zone) \<longrightarrow>
           strip link \<in> set (fst (fetch dw prio' zone out last_page fs')) \<and>
           [CInt q, CStr (strip link), CStr (now dw q)]
             \<in> set (rows_of (snd (fetch dw prio' zone out last_page fs')) out))"
    if b: "p \<in> set (fetch_pages last_page) \<and> http_get dw (page_url zone p) = Fails e"
  proof -
    from b have "fst (scrape dw zone out p fs') = Inl e"
      by (simp add: scrape_def)
    then show ?thesis
      using isolation_fetch(1) [of _ last_page dw zone _ _ prio' out fs']
        isolation_fetch(2) [of _ last_page dw zone _ _ prio' out fs']
      by blast
  qed
  from widget discovery show ?thesis by blast
qed

theorem partial_failure_isolation_witness:
  "(1::nat) < length [''a.com'', ''b.com''] \<and>
   session_get demo_world (ensure_https ([''a.com'', ''b.com''] ! 1)) = Fails TimeoutError \<and>
   session_get demo_world (ensure_https ([''a.com'', ''b.com''] ! 0))
     = Response 200 ''<script src=/VerifyPass.JS></script>'' \<and>
   has_verifypass ''<script src=/VerifyPass.JS></script>'' \<and>
   error (fst (process_domains_main2 demo_world (\<lambda>i. 1 - i) [''a.com'', ''b.com''] Map.empty) ! 1)
     = Some ''Timeout'' \<and>
   [CStr (ensure_https ([''a.com'', ''b.com''] ! 0)),
    CStr (current_time demo_world (ensure_https ([''a.com'', ''b.com''] ! 0))), CInt 200]
     \<in> set (rows_of (snd (process_domains_main2 demo_world (\<lambda>i. 1 - i) [''a.com'', ''b.com'']
                             Map.empty))
             (VERIFYPASS_FILE demo_world)) \<and>
   1 \<in> set (fetch_pages 4) \<and> 2 \<in> set (fetch_pages 4) \<and>
   http_get demo_directory (page_url ''com'' 1) = Fails (OtherError ''Connection reset'') \<and>
   http_get demo_directory (page_url ''com'' 2) = Response 200 ''page 2'' \<and>
   '' widgetshop.com '' \<in> set (candidates demo_directory ''page 2'') \<and>
   endswith (strip '' widgetshop.com '') (''.'' @ ''com'') \<and>
   fst (scrape demo_directory ''com'' ''out.csv'' 1 Map.empty)
     = Inl (OtherError ''Connection reset'') \<and>
   strip '' widgetshop.com ''
     \<in> set (fst (fetch demo_directory (\<lambda>i. 3 - i) ''com'' ''out.csv'' 4 Map.empty)) \<and>
   [CInt 2, CStr (strip '' widgetshop.com ''), CStr (now demo_directory 2)]
     \<in> set (rows_of (snd (fetch demo_directory (\<lambda>i. 3 - i) ''com'' ''out.csv'' 4 Map.empty))
             ''out.csv'')"
proof -
  have h1: "(1::nat) < length [''a.com'', ''b.com'']" by simp
  have h2: "session_get demo_world (ensure_https ([''a.com'', ''b.com''] ! 1)) = Fails TimeoutError"
    by (simp add: demo_world_def ensure_https_def startswith_def)
  have h3: "(0::nat) < length [''a.com'', ''b.com'']" by simp
  have h4: "session_get demo_world (ensure_https ([''a.com'', ''b.com''] ! 0))
              = Response 200 ''<script src=/VerifyPass.JS></script>''"
    by (simp add: demo_world_def ensure_https_def startswith_def)
  have h5: "has_verifypass ''<script src=/VerifyPass.JS></script>''"
    by code_simp
  have g1: "1 \<in> set (fetch_pages 4)" and g2: "2 \<in> set (fetch_pages 4)"
    by (simp_all add: fetch_pages_upto)
  have g3: "http_get demo_directory (page_url ''com'' 1) = Fails (OtherError ''Connection reset'')"
    by (simp add: demo_directory_def page_url_def str_of_int_def str_of_nat.simps digit_def)
  have g4: "http_get demo_directory (page_url ''com'' 2) = Response 200 ''page 2''"
    by (simp add: demo_directory_def page_url_def str_of_int_def str_of_nat.simps digit_def)
  have g5: "'' widgetshop.com '' \<in> set (candidates demo_directory ''page 2'')"
    by (simp add: demo_directory_def)
  have g6: "endswith (strip '' widgetshop.com '') (''.'' @ ''com'')"
    by (simp add: strip_def isspace_def endswith_def suffix_to_prefix)
  note t = partial_failure_isolation [of 1 "[''a.com'', ''b.com'']" demo_world TimeoutError
      "\<lambda>i. 1 - i" Map.empty 1 4 demo_directory "''com''" "OtherError ''Connection reset''" "''out.csv''"
      Map.empty "\<lambda>i. 3 - i"]
  from t h1 h2 have w1:
    "fst (process_domains_main2 demo_world (\<lambda>i. 1 - i) [''a.com'', ''b.com''] Map.empty) ! 1 =
       \<lparr>domain = ensure_https ([''a.com'', ''b.com''] ! 1), valid = False, status = None,
        verifypass = False,
        error = Some (case TimeoutError of TimeoutError \<Rightarrow> ''Timeout'' | OtherError e \<Rightarrow> e)\<rparr>"
    by blast
  from t h1 h2 h3 h4 h5 have w2:
    "[CStr (ensure_https ([''a.com'', ''b.com''] ! 0)),
      CStr (current_time demo_world (ensure_https ([''a.com'', ''b.com''] ! 0))), CInt 200]
       \<in> set (rows_of (snd (process_domains_main2 demo_world (\<lambda>i. 1 - i) [''a.com'', ''b.com'']
                               Map.empty))
               (VERIFYPASS_FILE demo_world))"
    by blast
  from t g1 g3 have w3:
    "fst (scrape demo_directory ''com'' ''out.csv'' 1 Map.empty)
       = Inl (OtherError ''Connection reset'')"
    by blast
  from t g1 g3 g2 g4 g5 g6 have w4:
    "strip '' widgetshop.com ''
       \<in> set (fst (fetch demo_directory (\<lambda>i. 3 - i) ''com'' ''out.csv'' 4 Map.empty)) \<and>
     [CInt 2, CStr (strip '' widgetshop.com ''), CStr (now demo_directory 2)]
       \<in> set (rows_of (snd (fetch demo_directory (\<lambda>i. 3 - i) ''com'' ''out.csv'' 4 Map.empty))
               ''out.csv'')"
    by blast
  from w1 have w1': "error (fst (process_domains_main2 demo_world (\<lambda>i. 1 - i)
                                   [''a.com'', ''b.com''] Map.empty) ! 1) = Some ''Timeout''"
    by simp
  from h1 h2 h4 h5 w1' w2 g1 g2 g3 g4 g5 g6 w3 w4 show ?thesis
    by (intro conjI) (simp_all only: simp_thms)
qed

section \<open>The files of a run of the widget pipeline\<close>





lemma rows_of_Cons: "rows_of fs name = r # rs \<Longrightarrow> fs name = Some (r # rs)"
  by (simp add: rows_of_def split: option.splits)


lemma results_file_not_sink:
  "''domain_check_results_'' @ results_timestamp w @ ''.csv'' \<noteq> VERIFYPASS_FILE w"
  by (simp add: VERIFYPASS_FILE_def)



lemma main_main2_sink:
  "\<exists>extra. rows_of (snd (main_main2 w sched argv fs)) (VERIFYPASS_FILE w)
             = rows_of fs (VERIFYPASS_FILE w) @ extra \<and>
           (\<forall>domains. 2 \<le> length argv \<and> load_domains_from_csv w (argv ! 1) = Inr domains \<longrightarrow>
              mset extra
                = mset (concat (map (\<lambda>d. written (check_domain_main2 w d) (VERIFYPASS_FILE w))
                                  domains)))"
proof (cases "length argv < 2")
  case True
  then show ?thesis by (simp add: main_main2_def)
next
  case long: False
  show ?thesis
  proof (cases "load_domains_from_csv w (argv ! 1)")
    case (Inl e)
    with long show ?thesis by (simp add: main_main2_def)
  next
    case (Inr domains)
    obtain extra where e:
      "rows_of (snd (run_batches_main2 w sched 0 (main_batches domains) [] fs)) (VERIFYPASS_FILE w)
         = rows_of fs (VERIFYPASS_FILE w) @ extra"
      "mset extra
         = mset (concat (map (\<lambda>d. written (check_domain_main2 w d) (VERIFYPASS_FILE w))
                           (concat (main_batches domains))))"
      using run_batches_main2_rows by blast
    have "rows_of (snd (main_main2 w sched argv fs)) (VERIFYPASS_FILE w)
            = rows_of (snd (run_batches_main2 w sched 0 (main_batches domains) [] fs))
                (VERIFYPASS_FILE w)"
      using long Inr results_file_not_sink [of w]
      by (simp add: main_main2_def Let_def case_prod_beta save_results_def rows_of_def)
    with e Inr show ?thesis by (auto simp: concat_main_batches)
  qed
qed




section \<open>Records per domain\<close>






lemma main_script_sink:
  "\<exists>extra. rows_of (snd (main_script w sched argv fs)) (INDIAN_DOMAINS_FILE w)
             = rows_of fs (INDIAN_DOMAINS_FILE w) @ extra \<and>
           (\<forall>domains. 2 \<le> length argv \<and> load_domains_from_csv w (argv ! 1) = Inr domains \<longrightarrow>
              mset extra
                = mset (concat (map (\<lambda>d. written (check_domain_script w d) (INDIAN_DOMAINS_FILE w))
                                  domains)))"
proof (cases "length argv < 2")
  case True
  then show ?thesis by (simp add: main_script_def)
next
  case long: False
  show ?thesis
  proof (cases "load_domains_from_csv w (argv ! 1)")
    case (Inl e)
    with long show ?thesis by (simp add: main_script_def)
  next
    case (Inr domains)
    obtain extra where e:
      "rows_of (run_batches_script w sched 0 (main_batches domains) fs) (INDIAN_DOMAINS_FILE w)
         = rows_of fs (INDIAN_DOMAINS_FILE w) @ extra"
      "mset extra
         = mset (concat (map (\<lambda>d. written (check_domain_script w d) (INDIAN_DOMAINS_FILE w))
                           (concat (main_batches domains))))"
      using run_batches_script_rows by blast
    have "snd (main_script w sched argv fs) = run_batches_script w sched 0 (main_batches domains) fs"
      using long Inr by (simp add: main_script_def Let_def)
    with e Inr show ?thesis by (auto simp: concat_main_batches)
  qed
qed

lemma module_main2_sink:
  "\<exists>extra. snd (module_main2 w sched argv fs) (VERIFYPASS_FILE w)
             = Some (map CStr [''Domain'', ''Timestamp'', ''Status''] # extra) \<and>
           (\<forall>domains. 2 \<le> length argv \<and> load_domains_from_csv w (argv ! 1) = Inr domains \<longrightarrow>
              mset extra
                = mset (concat (map (\<lambda>d. written (check_domain_main2 w d) (VERIFYPASS_FILE w))
                                  domains)))"
proof -
  let ?fs0 = "write_header (VERIFYPASS_FILE w) [''Domain'', ''Timestamp'', ''Status''] fs"
  obtain extra where e:
    "rows_of (snd (main_main2 w sched argv ?fs0)) (VERIFYPASS_FILE w)
       = rows_of ?fs0 (VERIFYPASS_FILE w) @ extra"
    "\<forall>domains. 2 \<le> length argv \<and> load_domains_from_csv w (argv ! 1) = Inr domains \<longrightarrow>
       mset extra
         = mset (concat (map (\<lambda>d. written (check_domain_main2 w d) (VERIFYPASS_FILE w)) domains))"
    using main_main2_sink by blast
  have "rows_of ?fs0 (VERIFYPASS_FILE w) = [map CStr [''Domain'', ''Timestamp'', ''Status'']]"
    by (simp add: write_header_def rows_of_def)
  with e(1) have "rows_of (snd (module_main2 w sched argv fs)) (VERIFYPASS_FILE w)
                    = map CStr [''Domain'', ''Timestamp'', ''Status''] # extra"
    by (simp add: module_main2_def)
  from rows_of_Cons [OF this] e(2) show ?thesis by blast
qed

lemma module_script_sink:
  "\<exists>extra. snd (module_script w sched argv fs) (INDIAN_DOMAINS_FILE w)
             = Some (map CStr [''Domain'', ''Confidence'', ''Indicators'', ''Country_Code'',
                               ''Shop_ID'', ''Timestamp''] # extra) \<and>
           (\<forall>domains. 2 \<le> length argv \<and> load_domains_from_csv w (argv ! 1) = Inr domains \<longrightarrow>
              mset extra
                = mset (concat (map (\<lambda>d. written (check_domain_script w d) (INDIAN_DOMAINS_FILE w))
                                  domains)))"
proof -
  let ?h = "[''Domain'', ''Confidence'', ''Indicators'', ''Country_Code'', ''Shop_ID'', ''Timestamp'']"
  let ?fs0 = "write_header (INDIAN_DOMAINS_FILE w) ?h fs"
  obtain extra where e:
    "rows_of (snd (main_script w sched argv ?fs0)) (INDIAN_DOMAINS_FILE w)
       = rows_of ?fs0 (INDIAN_DOMAINS_FILE w) @ extra"
    "\<forall>domains. 2 \<le> length argv \<and> load_domains_from_csv w (argv ! 1) = Inr domains \<longrightarrow>
       mset extra
         = mset (concat (map (\<lambda>d. written (check_domain_script w d) (INDIAN_DOMAINS_FILE w)) domains))"
    using main_script_sink by blast
  have "rows_of ?fs0 (INDIAN_DOMAINS_FILE w) = [map CStr ?h]"
    by (simp add: write_header_def rows_of_def)
  with e(1) have "rows_of (snd (module_script w sched argv fs)) (INDIAN_DOMAINS_FILE w)
                    = map CStr ?h # extra"
    by (simp add: module_script_def)
  from rows_of_Cons [OF this] e(2) show ?thesis by blast
qed





section \<open>The output file of an invocation\<close>

text \<open>
  C10. Both probing programs create their output file and write its header in a
  module-level statement, before \<open>main\<close> looks at the arguments. An invocation without an
  input path therefore exits with status 1 after the usage message and leaves the output
  file with the header as its only row; and after every invocation, whatever its
  arguments and its outcome, the output file exists and begins with the header.
\<close>

theorem header_before_validation:
  "(length argv < 2 \<longrightarrow>
      module_main2 pw sched argv fs
        = (SystemExit 1 usage,
           fs(VERIFYPASS_FILE pw \<mapsto> [map CStr [''Domain'', ''Timestamp'', ''Status'']])) \<and>
      module_script lw sched' argv fs
        = (SystemExit 1 usage,
           fs(INDIAN_DOMAINS_FILE lw \<mapsto>
                [map CStr [''Domain'', ''Confidence'', ''Indicators'', ''Country_Code'',
                           ''Shop_ID'', ''Timestamp'']]))) \<and>
   (\<exists>rest. snd (module_main2 pw sched argv fs) (VERIFYPASS_FILE pw)
             = Some (map CStr [''Domain'', ''Timestamp'', ''Status''] # rest)) \<and>
   (\<exists>rest. snd (module_script lw sched' argv fs) (INDIAN_DOMAINS_FILE lw)
             = Some (map CStr [''Domain'', ''Confidence'', ''Indicators'', ''Country_Code'',
                               ''Shop_ID'', ''Timestamp''] # rest))"
proof -
  have short: "module_main2 pw sched argv fs
        = (SystemExit 1 usage,
           fs(VERIFYPASS_FILE pw \<mapsto> [map CStr [''Domain'', ''Timestamp'', ''Status'']])) \<and>
      module_script lw sched' argv fs
        = (SystemExit 1 usage,
           fs(INDIAN_DOMAINS_FILE lw \<mapsto>
                [map CStr [''Domain'', ''Confidence'', ''Indicators'', ''Country_Code'',
                           ''Shop_ID'', ''Timestamp'']]))"
    if "length argv < 2"
    using that
    by (simp add: module_main2_def main_main2_def module_script_def main_script_def
        write_header_def)
  from module_main2_sink [of pw sched argv fs]
  have a: "\<exists>rest. snd (module_main2 pw sched argv fs) (VERIFYPASS_FILE pw)
             = Some (map CStr [''Domain'', ''Timestamp'', ''Status''] # rest)"
    by blast
  from module_script_sink [of lw sched' argv fs]
  have b: "\<exists>rest. snd (module_script lw sched' argv fs) (INDIAN_DOMAINS_FILE lw)
             = Some (map CStr [''Domain'', ''Confidence'', ''Indicators'', ''Country_Code'',
                               ''Shop_ID'', ''Timestamp''] # rest)"
    by blast
  from short a b show ?thesis by blast
qed

theorem header_before_validation_witness:
  "length [''prog''] < 2 \<and>
   module_main2 demo_world (\<lambda>k i. i) [''prog''] Map.empty
     = (SystemExit 1 ''Please provide the CSV file path as an argument'',
        [''verifypass_domains_20240101_000000.csv''
           \<mapsto> [[CStr ''Domain'', CStr ''Timestamp'', CStr ''Status'']]]) \<and>
   module_script demo_locale_world (\<lambda>k i. i) [''prog''] Map.empty
     = (SystemExit 1 ''Please provide the CSV file path as an argument'',
        [''indian_shopify_domains_20240101_000000.csv''
           \<mapsto> [[CStr ''Domain'', CStr ''Confidence'', CStr ''Indicators'',
                 CStr ''Country_Code'', CStr ''Shop_ID'', CStr ''Timestamp'']]])"
proof -
  have h: "length [''prog''] < 2" by simp
  have v: "VERIFYPASS_FILE demo_world = ''verifypass_domains_20240101_000000.csv''"
    by (simp add: VERIFYPASS_FILE_def demo_world_def)
  have i: "INDIAN_DOMAINS_FILE demo_locale_world = ''indian_shopify_domains_20240101_000000.csv''"
    by (simp add: INDIAN_DOMAINS_FILE_def demo_locale_world_def)
  from header_before_validation
         [of "[''prog'']" demo_world "\<lambda>k i. i" Map.empty demo_locale_world "\<lambda>k i. i"] h
  have "module_main2 demo_world (\<lambda>k i. i) [''prog''] Map.empty
        = (SystemExit 1 usage,
           [VERIFYPASS_FILE demo_world \<mapsto> [map CStr [''Domain'', ''Timestamp'', ''Status'']]]) \<and>
      module_script demo_locale_world (\<lambda>k i. i) [''prog''] Map.empty
        = (SystemExit 1 usage,
           [INDIAN_DOMAINS_FILE demo_locale_world \<mapsto>
                [map CStr [''Domain'', ''Confidence'', ''Indicators'', ''Country_Code'',
                           ''Shop_ID'', ''Timestamp'']]])"
    by blast
  with h show ?thesis by (simp add: v i usage_def)
qed

section \<open>The confidence of the locale extractor\<close>














section \<open>Batches run one after the other\<close>









end
